theory Spec2Isabelle
  imports Complex_Main "HOL-Library.Log_Nat"
begin

section \<open>Python values\<close>

subsection \<open>Exceptions and results\<close>

text \<open>
  Every \<^verbatim>\<open>raise\<close> of the program and of the libraries it calls is a value.
  \<open>IOError\<close> stands for \<^verbatim>\<open>OSError\<close> and its subclasses (a missing or unreadable file),
  which is what \<^verbatim>\<open>except IOError\<close> in \<^verbatim>\<open>setup_fonts\<close> catches.
\<close>

datatype error = IOError | ValueError | ZeroDivisionError | KeyError | DataOverflowError

definition and_then :: "error + 'a \<Rightarrow> ('a \<Rightarrow> error + 'b) \<Rightarrow> error + 'b" where
  "and_then m f = (case m of Inl e \<Rightarrow> Inl e | Inr x \<Rightarrow> f x)"

subsection \<open>Floats\<close>

text \<open>
  A Python float is a binary64 number. The model keeps its value as a rational and rounds
  the exact result of every operation to 53 significant bits, ties to even, as IEEE 754
  does. Overflow, subnormals, infinities and NaN are left out: the operands here are
  pixel counts and their quotients.
\<close>

definition pow2 :: "int \<Rightarrow> rat" where
  "pow2 k = (if 0 \<le> k then 2 ^ nat k else 1 / 2 ^ nat (- k))"

definition ilog2 :: "rat \<Rightarrow> int" where
  \<comment> \<open>for \<open>0 < x\<close>: the exponent \<open>e\<close> with \<open>2^e \<le> x < 2^(e+1)\<close>\<close>
  "ilog2 x = (case quotient_of x of (p, q) \<Rightarrow>
     let d = bitlen p - bitlen q
     in if pow2 d \<le> x then d else d - 1)"

definition round_half_even :: "rat \<Rightarrow> int" where
  "round_half_even r = (let f = \<lfloor>r\<rfloor>; d = r - of_int f
     in if d < 1 / 2 then f else if 1 / 2 < d then f + 1
        else if even f then f else f + 1)"

definition round_to :: "int \<Rightarrow> rat \<Rightarrow> rat" where
  \<comment> \<open>the multiple of \<open>2^k\<close> nearest to \<open>x\<close>\<close>
  "round_to k x = of_int (round_half_even (x / pow2 k)) * pow2 k"

definition fl :: "rat \<Rightarrow> rat" where
  "fl x = (if x = 0 then 0 else round_to (ilog2 \<bar>x\<bar> - 52) x)"

definition float_of_int :: "int \<Rightarrow> rat" where
  "float_of_int n = fl (of_int n)"

definition int_truediv :: "int \<Rightarrow> int \<Rightarrow> error + rat" where
  \<comment> \<open>\<^verbatim>\<open>a / b\<close> on two ints: the correctly rounded quotient\<close>
  "int_truediv a b = (if b = 0 then Inl ZeroDivisionError else Inr (fl (of_int a / of_int b)))"

definition float_truediv :: "rat \<Rightarrow> rat \<Rightarrow> error + rat" where
  "float_truediv a b = (if b = 0 then Inl ZeroDivisionError else Inr (fl (a / b)))"

definition py_int :: "rat \<Rightarrow> int" where
  \<comment> \<open>\<^verbatim>\<open>int(x)\<close> truncates towards zero\<close>
  "py_int x = (if 0 \<le> x then \<lfloor>x\<rfloor> else \<lceil>x\<rceil>)"

definition py_round :: "rat \<Rightarrow> int" where
  \<comment> \<open>\<^verbatim>\<open>round(x)\<close> with one argument rounds half to even\<close>
  "py_round x = round_half_even x"

subsection \<open>Strings\<close>

text \<open>
  A \<^verbatim>\<open>str\<close> is a list of characters, one \<open>char\<close> per code point; the only code point
  above ASCII in the program is U+00E9, written \<open>CHR 0xE9\<close>.
\<close>

fun str_nat :: "nat \<Rightarrow> string" where
  "str_nat n = (if n < 10 then [char_of (48 + n)]
     else str_nat (n div 10) @ [char_of (48 + n mod 10)])"

declare str_nat.simps [simp del]

definition str_int :: "int \<Rightarrow> string" where
  "str_int i = (if i < 0 then CHR ''-'' # str_nat (nat (- i)) else str_nat (nat i))"

definition path_join :: "string \<Rightarrow> string \<Rightarrow> string" where
  \<comment> \<open>\<^verbatim>\<open>os.path.join(a, b)\<close> for a relative \<open>b\<close>\<close>
  "path_join a b = (if a = [] \<or> last a = CHR ''/'' then a @ b else a @ CHR ''/'' # b)"

section \<open>Data model\<close>

record TicketConfig =
  width :: int
  height :: int
  padding :: int
  font_large_size :: int
  font_small_size :: int
  icon_size :: int

definition default_config :: TicketConfig where
  "default_config = \<lparr>width = 1202, height = 450, padding = 50,
     font_large_size = 36, font_small_size = 16, icon_size = 24\<rparr>"

record EventDetails =
  title :: string
  category :: string
  date :: string
  time :: string
  location :: string
  ticket_type :: string
  url :: string

record TicketData =
  ticket_number :: int
  owner :: string
  qr_data :: string
  event :: EventDetails

section \<open>The imaging library\<close>

text \<open>
  Pillow is used through \<^verbatim>\<open>Image\<close>, \<^verbatim>\<open>ImageDraw\<close> and \<^verbatim>\<open>ImageFont\<close>. An image is its mode,
  its size and its content. The content is kept as the term of library calls that produced
  it, so two images with the same content term have the same pixels. Sizes, modes and the
  errors each call raises are those of the library.
\<close>

datatype mode = Mode_1 | Mode_L | Mode_LA | Mode_P | Mode_RGB | Mode_RGBA | Mode_CMYK

datatype colour = Named string | RGB3 int int int | RGBA4 int int int int

datatype font = TrueType string int | DefaultFont

datatype resample = NEAREST | LANCZOS | BICUBIC

datatype shape =
    Rect int int int int
  | Pie int int int int int int

datatype drawing =
    Text "int \<times> int" string font colour
  | Fill shape colour
  | Line int int int int colour

datatype pic =
    Blank colour
  | File string
  | QRSymbol string nat nat nat
  | Converted pic mode
  | Resized pic int int resample
  | Cropped pic int int int int
  | Composite pic pic
  | Pasted pic pic "int \<times> int" "pic option"
  | Draw pic drawing

record image =
  imode :: mode
  iwidth :: int
  iheight :: int
  ipixels :: pic

text \<open>
  What the program reads from outside: image files (a decodable file has a mode and a
  size), font files, the text metrics of the font rasteriser, and the number of bits the QR
  encoder needs for a payload at a symbol version.
\<close>

record env =
  image_files :: "string \<Rightarrow> error + (mode \<times> int \<times> int)"
  font_files :: "string \<Rightarrow> int \<Rightarrow> error option"
  text_bbox :: "font \<Rightarrow> string \<Rightarrow> int \<times> int \<times> int \<times> int"
  qr_bits :: "string \<Rightarrow> nat \<Rightarrow> nat"

definition Image_new :: "mode \<Rightarrow> int \<times> int \<Rightarrow> colour \<Rightarrow> error + image" where
  "Image_new m sz c = (case sz of (w, h) \<Rightarrow>
     if w < 0 \<or> h < 0 then Inl ValueError
     else Inr \<lparr>imode = m, iwidth = w, iheight = h, ipixels = Blank c\<rparr>)"

definition Image_open :: "env \<Rightarrow> string \<Rightarrow> error + image" where
  "Image_open ev path = (case image_files ev path of
       Inl e \<Rightarrow> Inl e
     | Inr (m, w, h) \<Rightarrow> Inr \<lparr>imode = m, iwidth = w, iheight = h, ipixels = File path\<rparr>)"

definition convert :: "image \<Rightarrow> mode \<Rightarrow> image" where
  "convert im m = (if imode im = m then im
     else im\<lparr>imode := m, ipixels := Converted (ipixels im) m\<rparr>)"

definition resize :: "image \<Rightarrow> int \<times> int \<Rightarrow> resample \<Rightarrow> error + image" where
  \<comment> \<open>a resize to the image's own size is a copy; otherwise both sides must be positive;
      images of mode 1 and P are always resampled with the nearest pixel\<close>
  "resize im sz f = (case sz of (w, h) \<Rightarrow>
     if (iwidth im, iheight im) = (w, h) then Inr im
     else if w < 1 \<or> h < 1 then Inl ValueError
     else Inr (im\<lparr>iwidth := w, iheight := h,
       ipixels := Resized (ipixels im) w h
         (if imode im = Mode_1 \<or> imode im = Mode_P then NEAREST else f)\<rparr>))"

definition crop :: "image \<Rightarrow> rat \<times> rat \<times> rat \<times> rat \<Rightarrow> error + image" where
  \<comment> \<open>\<^verbatim>\<open>Image.crop\<close> rounds each coordinate of the box with \<^verbatim>\<open>round\<close> before it crops:
      \<^verbatim>\<open>x0, y0, x1, y1 = map(int, map(round, box))\<close>\<close>
  "crop im box = (case box of (l, t, r, b) \<Rightarrow>
     if r < l \<or> b < t then Inl ValueError
     else let x0 = py_round l; y0 = py_round t;
              x1 = py_round r; y1 = py_round b
          in Inr (im\<lparr>iwidth := x1 - x0, iheight := y1 - y0,
                      ipixels := Cropped (ipixels im) x0 y0 x1 y1\<rparr>))"

definition has_alpha :: "image \<Rightarrow> bool" where
  \<comment> \<open>\<^verbatim>\<open>'A' in im.getbands()\<close>\<close>
  "has_alpha im = (imode im = Mode_LA \<or> imode im = Mode_RGBA)"

definition paste :: "image \<Rightarrow> image \<Rightarrow> int \<times> int \<Rightarrow> image option \<Rightarrow> error + image" where
  \<comment> \<open>the source is clipped to the destination; a mask must be of mode 1, L, LA or RGBA
      and of the size of the source\<close>
  "paste dst src pos msk = (case msk of
       None \<Rightarrow> Inr (dst\<lparr>ipixels := Pasted (ipixels dst) (ipixels src) pos None\<rparr>)
     | Some m \<Rightarrow>
         if imode m \<noteq> Mode_1 \<and> imode m \<noteq> Mode_L \<and> \<not> has_alpha m then Inl ValueError
         else if (iwidth m, iheight m) \<noteq> (iwidth src, iheight src) then Inl ValueError
         else Inr (dst\<lparr>ipixels := Pasted (ipixels dst) (ipixels src) pos (Some (ipixels m))\<rparr>))"

definition alpha_composite :: "image \<Rightarrow> image \<Rightarrow> error + image" where
  "alpha_composite a b =
     (if imode a \<noteq> Mode_RGBA \<or> imode b \<noteq> Mode_RGBA
         \<or> (iwidth a, iheight a) \<noteq> (iwidth b, iheight b) then Inl ValueError
      else Inr (a\<lparr>ipixels := Composite (ipixels a) (ipixels b)\<rparr>))"

definition draw_text :: "image \<Rightarrow> int \<times> int \<Rightarrow> string \<Rightarrow> font \<Rightarrow> colour \<Rightarrow> image" where
  "draw_text im xy s f c = im\<lparr>ipixels := Draw (ipixels im) (Text xy s f c)\<rparr>"

definition draw_line :: "image \<Rightarrow> int \<times> int \<times> int \<times> int \<Rightarrow> colour \<Rightarrow> image" where
  "draw_line im xy c = (case xy of (x0, y0, x1, y1) \<Rightarrow>
     im\<lparr>ipixels := Draw (ipixels im) (Line x0 y0 x1 y1 c)\<rparr>)"

definition draw_rectangle :: "image \<Rightarrow> int \<times> int \<times> int \<times> int \<Rightarrow> colour \<Rightarrow> error + image" where
  "draw_rectangle im xy c = (case xy of (x0, y0, x1, y1) \<Rightarrow>
     if x1 < x0 \<or> y1 < y0 then Inl ValueError
     else Inr (im\<lparr>ipixels := Draw (ipixels im) (Fill (Rect x0 y0 x1 y1) c)\<rparr>))"

definition draw_pieslice ::
  "image \<Rightarrow> int \<times> int \<times> int \<times> int \<Rightarrow> int \<Rightarrow> int \<Rightarrow> colour \<Rightarrow> error + image" where
  "draw_pieslice im xy a b c = (case xy of (x0, y0, x1, y1) \<Rightarrow>
     if x1 < x0 \<or> y1 < y0 then Inl ValueError
     else Inr (im\<lparr>ipixels := Draw (ipixels im) (Fill (Pie x0 y0 x1 y1 a b) c)\<rparr>))"

definition textbbox :: "env \<Rightarrow> int \<times> int \<Rightarrow> string \<Rightarrow> font \<Rightarrow> int \<times> int \<times> int \<times> int" where
  "textbbox ev xy s f = (case xy of (x, y) \<Rightarrow> case text_bbox ev f s of (l, t, r, b) \<Rightarrow>
     (x + l, y + t, x + r, y + b))"

definition truetype :: "env \<Rightarrow> string \<Rightarrow> int \<Rightarrow> error + font" where
  "truetype ev name sz = (case font_files ev name sz of
       Some e \<Rightarrow> Inl e
     | None \<Rightarrow> Inr (TrueType name sz))"

subsection \<open>What a filled shape covers\<close>

text \<open>
  A rectangle covers its box, both corner points included. A pie slice covers the part of
  the ellipse inscribed in its box that lies between its two angles; angles run clockwise
  from three o'clock, and \<open>y\<close> grows downwards. The slices of this program span whole
  quadrants, so a point is tested against the quadrants that lie inside the angle range.
\<close>

definition in_ellipse :: "int \<times> int \<times> int \<times> int \<Rightarrow> int \<times> int \<Rightarrow> bool" where
  "in_ellipse box p = (case box of (x0, y0, x1, y1) \<Rightarrow> case p of (x, y) \<Rightarrow>
     x0 \<le> x \<and> x \<le> x1 \<and> y0 \<le> y \<and> y \<le> y1 \<and>
     ((2 * x - x0 - x1) * (y1 - y0))\<^sup>2 + ((2 * y - y0 - y1) * (x1 - x0))\<^sup>2
       \<le> ((x1 - x0) * (y1 - y0))\<^sup>2)"

definition in_quadrant :: "int \<times> int \<times> int \<times> int \<Rightarrow> int \<Rightarrow> int \<times> int \<Rightarrow> bool" where
  \<comment> \<open>quadrant \<open>k\<close> spans the angles \<open>90k\<close> to \<open>90(k+1)\<close>\<close>
  "in_quadrant box k p = (case box of (x0, y0, x1, y1) \<Rightarrow> case p of (x, y) \<Rightarrow>
     if k = 0 then x0 + x1 \<le> 2 * x \<and> y0 + y1 \<le> 2 * y
     else if k = 1 then 2 * x \<le> x0 + x1 \<and> y0 + y1 \<le> 2 * y
     else if k = 2 then 2 * x \<le> x0 + x1 \<and> 2 * y \<le> y0 + y1
     else if k = 3 then x0 + x1 \<le> 2 * x \<and> 2 * y \<le> y0 + y1
     else False)"

fun covers :: "shape \<Rightarrow> int \<times> int \<Rightarrow> bool" where
  "covers (Rect x0 y0 x1 y1) (x, y) = (x0 \<le> x \<and> x \<le> x1 \<and> y0 \<le> y \<and> y \<le> y1)"
| "covers (Pie x0 y0 x1 y1 a b) (x, y) =
     (in_ellipse (x0, y0, x1, y1) (x, y) \<and>
      list_ex (\<lambda>k. a \<le> 90 * k \<and> 90 * (k + 1) \<le> b \<and> in_quadrant (x0, y0, x1, y1) k (x, y))
        [0, 1, 2, 3])"

section \<open>The QR encoder\<close>

text \<open>
  \<^verbatim>\<open>qrcode.QRCode(version, error_correction=H, box_size, border)\<close>, \<^verbatim>\<open>add_data\<close>,
  \<^verbatim>\<open>make(fit)\<close> and \<^verbatim>\<open>make_image\<close>. A symbol of version \<open>v\<close> (1 to 40) at level H holds
  \<open>data_codewords_H ! (v - 1)\<close> bytes. With \<^verbatim>\<open>fit=True\<close> the encoder takes the first version
  from the requested one upwards that holds the payload, and raises
  \<^verbatim>\<open>DataOverflowError\<close> when version 40 is too small; with \<^verbatim>\<open>fit=False\<close> it keeps the
  requested version and raises when the payload does not fit it.
\<close>

definition data_codewords_H :: "nat list" where
  "data_codewords_H =
     [9, 16, 26, 36, 46, 60, 66, 86, 100, 122,
      140, 158, 180, 197, 223, 253, 283, 313, 341, 385,
      406, 442, 464, 514, 538, 596, 628, 661, 701, 745,
      793, 845, 901, 961, 986, 1054, 1096, 1142, 1222, 1276]"

definition bit_limit_H :: "nat \<Rightarrow> nat" where
  "bit_limit_H v = 8 * (data_codewords_H ! (v - 1))"

definition fits :: "env \<Rightarrow> string \<Rightarrow> nat \<Rightarrow> bool" where
  "fits ev payload v = (qr_bits ev payload v \<le> bit_limit_H v)"

definition best_fit :: "env \<Rightarrow> string \<Rightarrow> nat \<Rightarrow> error + nat" where
  "best_fit ev payload start = (case find (fits ev payload) [start..<41] of
       None \<Rightarrow> Inl DataOverflowError
     | Some v \<Rightarrow> Inr v)"

definition QRCode_make :: "env \<Rightarrow> nat \<Rightarrow> string \<Rightarrow> bool \<Rightarrow> error + nat" where
  "QRCode_make ev version payload fit =
     (if fit then best_fit ev payload version
      else if fits ev payload version then Inr version else Inl DataOverflowError)"

definition make_image :: "string \<Rightarrow> nat \<Rightarrow> nat \<Rightarrow> nat \<Rightarrow> image" where
  \<comment> \<open>black on white: an image of mode 1, \<open>17 + 4v\<close> modules and the border on each side\<close>
  "make_image payload v box_size border =
     (let side = int ((17 + 4 * v + 2 * border) * box_size)
      in \<lparr>imode = Mode_1, iwidth = side, iheight = side,
          ipixels = QRSymbol payload v box_size border\<rparr>)"

definition byte_mode_bits :: "string \<Rightarrow> nat \<Rightarrow> nat" where
  \<comment> \<open>one byte-mode segment: mode indicator, character count, eight bits a byte\<close>
  "byte_mode_bits payload v = 4 + (if v < 10 then 8 else 16) + 8 * length payload"

section \<open>TicketGenerator\<close>

record TicketGenerator =
  config :: TicketConfig
  icons_folder :: string
  font_large :: font
  font_small :: font
  font_bold :: font
  icons :: "string \<rightharpoonup> image"

definition setup_fonts :: "env \<Rightarrow> TicketConfig \<Rightarrow> error + (font \<times> font \<times> font)" where
  \<comment> \<open>the fonts in the order large, small, bold\<close>
  "setup_fonts ev cfg =
     (case and_then (truetype ev ''arial.ttf'' (font_large_size cfg)) (\<lambda>f_large.
           and_then (truetype ev ''arial.ttf'' (font_small_size cfg)) (\<lambda>f_small.
           and_then (truetype ev ''arialbd.ttf'' (font_large_size cfg)) (\<lambda>f_bold.
           Inr (f_large, f_small, f_bold)))) of
        Inl IOError \<Rightarrow> Inr (DefaultFont, DefaultFont, DefaultFont)
      | Inl e \<Rightarrow> Inl e
      | Inr fonts \<Rightarrow> Inr fonts)"

definition icon_files :: "(string \<times> string) list" where
  "icon_files = [(''calendar'', ''calendar.png''), (''clock'', ''clock.png''),
     (''map'', ''map.png''), (''ticket'', ''ticket.png'')]"

definition placeholder_icon :: "TicketConfig \<Rightarrow> error + image" where
  "placeholder_icon cfg = Image_new Mode_RGBA (icon_size cfg, icon_size cfg) (RGBA4 0 0 0 0)"

definition load_icon :: "env \<Rightarrow> TicketConfig \<Rightarrow> string \<Rightarrow> string \<Rightarrow> error + image" where
  \<comment> \<open>the body of the loop: \<^verbatim>\<open>except Exception\<close> catches every error of the \<^verbatim>\<open>try\<close> block\<close>
  "load_icon ev cfg folder file_name =
     (case and_then (Image_open ev (path_join folder file_name)) (\<lambda>icon.
           resize (convert icon Mode_RGBA) (icon_size cfg, icon_size cfg) LANCZOS) of
        Inr icon \<Rightarrow> Inr icon
      | Inl e \<Rightarrow> placeholder_icon cfg)"

fun load_icons_loop ::
  "env \<Rightarrow> TicketConfig \<Rightarrow> string \<Rightarrow> (string \<times> string) list \<Rightarrow> (string \<rightharpoonup> image)
     \<Rightarrow> error + (string \<rightharpoonup> image)" where
  "load_icons_loop ev cfg folder [] m = Inr m"
| "load_icons_loop ev cfg folder ((icon_name, file_name) # rest) m =
     and_then (load_icon ev cfg folder file_name) (\<lambda>icon.
       load_icons_loop ev cfg folder rest (m(icon_name \<mapsto> icon)))"

definition load_icons :: "env \<Rightarrow> TicketConfig \<Rightarrow> string \<Rightarrow> error + (string \<rightharpoonup> image)" where
  "load_icons ev cfg folder = load_icons_loop ev cfg folder icon_files Map.empty"

definition TicketGenerator_init :: "env \<Rightarrow> TicketConfig \<Rightarrow> string \<Rightarrow> error + TicketGenerator" where
  "TicketGenerator_init ev cfg folder =
     and_then (setup_fonts ev cfg) (\<lambda>(f_large, f_small, f_bold).
     and_then (load_icons ev cfg folder) (\<lambda>ics.
     Inr \<lparr>config = cfg, icons_folder = folder,
          font_large = f_large, font_small = f_small, font_bold = f_bold, icons = ics\<rparr>))"

definition draw_icon_with_text ::
  "TicketGenerator \<Rightarrow> image \<Rightarrow> int \<Rightarrow> int \<Rightarrow> string \<Rightarrow> string \<Rightarrow> error + image" where
  "draw_icon_with_text g ticket x y icon_type text =
     (case icons g icon_type of
        None \<Rightarrow> Inl KeyError
      | Some icon \<Rightarrow>
          and_then (if has_alpha icon then paste ticket icon (x, y) (Some icon)
                    else paste ticket icon (x, y) None) (\<lambda>ticket.
          let text_y = y + (icon_size (config g) - font_small_size (config g)) div 2
          in Inr (draw_text ticket (x + icon_size (config g) + 10, text_y) text
                   (font_small g) (RGB3 81 79 79))))"

definition rounded_rectangle_shapes :: "int \<times> int \<times> int \<times> int \<Rightarrow> int \<Rightarrow> shape list" where
  \<comment> \<open>the six fills of \<^verbatim>\<open>create_rounded_rectangle\<close>, in the order drawn\<close>
  "rounded_rectangle_shapes coords radius = (case coords of (x1, y1, x2, y2) \<Rightarrow>
     [Rect (x1 + radius) y1 (x2 - radius) y2,
      Rect x1 (y1 + radius) x2 (y2 - radius),
      Pie x1 y1 (x1 + radius * 2) (y1 + radius * 2) 180 270,
      Pie (x2 - radius * 2) y1 x2 (y1 + radius * 2) 270 360,
      Pie x1 (y2 - radius * 2) (x1 + radius * 2) y2 90 180,
      Pie (x2 - radius * 2) (y2 - radius * 2) x2 y2 0 90])"

fun draw_shape :: "image \<Rightarrow> shape \<Rightarrow> colour \<Rightarrow> error + image" where
  "draw_shape im (Rect x0 y0 x1 y1) c = draw_rectangle im (x0, y0, x1, y1) c"
| "draw_shape im (Pie x0 y0 x1 y1 a b) c = draw_pieslice im (x0, y0, x1, y1) a b c"

fun draw_shapes :: "image \<Rightarrow> shape list \<Rightarrow> colour \<Rightarrow> error + image" where
  "draw_shapes im [] c = Inr im"
| "draw_shapes im (s # ss) c = and_then (draw_shape im s c) (\<lambda>im. draw_shapes im ss c)"

definition create_rounded_rectangle ::
  "image \<Rightarrow> int \<times> int \<times> int \<times> int \<Rightarrow> int \<Rightarrow> colour \<Rightarrow> error + image" where
  "create_rounded_rectangle im coords radius fill =
     draw_shapes im (rounded_rectangle_shapes coords radius) fill"

definition get_text_dimensions :: "env \<Rightarrow> string \<Rightarrow> font \<Rightarrow> int \<times> int" where
  "get_text_dimensions ev text f = (case textbbox ev (0, 0) text f of (l, t, r, b) \<Rightarrow>
     (r - l, b - t))"

definition process_background :: "env \<Rightarrow> TicketConfig \<Rightarrow> string \<Rightarrow> error + image" where
  "process_background ev cfg background_path =
     and_then (Image_open ev background_path) (\<lambda>background.
     and_then (int_truediv (iwidth background) (iheight background)) (\<lambda>bg_aspect.
     and_then (int_truediv (width cfg) (height cfg)) (\<lambda>ticket_aspect.
     and_then (if bg_aspect > ticket_aspect
               then Inr (py_int (fl (float_of_int (height cfg) * bg_aspect)), height cfg)
               else and_then (float_truediv (float_of_int (width cfg)) bg_aspect) (\<lambda>q.
                      Inr (width cfg, py_int q))) (\<lambda>(new_width, new_height).
     and_then (resize background (new_width, new_height) LANCZOS) (\<lambda>background.
     and_then (int_truediv (new_width - width cfg) 2) (\<lambda>left.
     and_then (int_truediv (new_height - height cfg) 2) (\<lambda>top.
     let right = fl (left + float_of_int (width cfg));
         bottom = fl (top + float_of_int (height cfg))
     in crop background (left, top, right, bottom))))))))"

definition gradient_alpha :: "int \<Rightarrow> int \<Rightarrow> error + int" where
  \<comment> \<open>\<^verbatim>\<open>int(255 * (1 - i / width))\<close>\<close>
  "gradient_alpha w i = and_then (int_truediv i w) (\<lambda>q.
     Inr (py_int (fl (float_of_int 255 * fl (float_of_int 1 - q)))))"

fun gradient_loop :: "TicketConfig \<Rightarrow> int list \<Rightarrow> image \<Rightarrow> error + image" where
  "gradient_loop cfg [] gradient = Inr gradient"
| "gradient_loop cfg (i # rest) gradient =
     and_then (gradient_alpha (width cfg) i) (\<lambda>alpha.
       gradient_loop cfg rest
         (draw_line gradient (i, 0, i, height cfg) (RGBA4 255 255 255 alpha)))"

definition py_range :: "int \<Rightarrow> int list" where
  "py_range n = map int [0..<nat n]"

definition add_gradient :: "TicketConfig \<Rightarrow> image \<Rightarrow> error + image" where
  "add_gradient cfg ticket =
     and_then (Image_new Mode_RGBA (width cfg, height cfg) (RGBA4 255 255 255 0)) (\<lambda>gradient.
     and_then (gradient_loop cfg (py_range (width cfg)) gradient) (\<lambda>gradient.
     alpha_composite (convert ticket Mode_RGBA) gradient))"

definition add_qr_code :: "env \<Rightarrow> image \<Rightarrow> string \<Rightarrow> error + image" where
  "add_qr_code ev ticket payload =
     and_then (QRCode_make ev 2 payload True) (\<lambda>version.
     let qr_code = convert (make_image payload version 8 2) Mode_RGB
     in and_then (resize qr_code (320, 320) BICUBIC) (\<lambda>qr_code.
        and_then (Image_open ev ''./EVNTia.png'') (\<lambda>logo.
        let logo_size = (80, 40)
        in and_then (resize logo logo_size BICUBIC) (\<lambda>logo.
           let logo_position = ((iwidth qr_code - fst logo_size) div 2,
                                (iheight qr_code - snd logo_size) div 2)
           in and_then (paste qr_code logo logo_position (Some logo)) (\<lambda>qr_code.
              paste ticket qr_code (830, 50) None)))))"

fun draw_details ::
  "TicketGenerator \<Rightarrow> (string \<times> string \<times> int option) list \<Rightarrow> int \<Rightarrow> image \<Rightarrow> error + image" where
  "draw_details g [] y_pos ticket = Inr ticket"
| "draw_details g ((icon_type, text, x_offset) # rest) y_pos ticket =
     (let (y_pos, x_pos) = (case x_offset of
              None \<Rightarrow> (y_pos + 40, padding (config g))
            | Some off \<Rightarrow> (y_pos, padding (config g) + off))
      in and_then (draw_icon_with_text g ticket x_pos y_pos icon_type text)
           (draw_details g rest y_pos))"

definition owner_label :: string where
  "owner_label = ''Propri'' @ [CHR 0xE9] @ ''taire: ''"

definition generate_ticket ::
  "env \<Rightarrow> TicketGenerator \<Rightarrow> string \<Rightarrow> TicketData \<Rightarrow> error + image" where
  "generate_ticket ev g background_path ticket_data =
     (let cfg = config g in
      and_then (Image_new Mode_RGB (width cfg, height cfg) (Named ''white'')) (\<lambda>ticket.
      and_then (process_background ev cfg background_path) (\<lambda>background.
      and_then (paste ticket background (0, 0) None) (\<lambda>ticket.
      and_then (add_gradient cfg ticket) (\<lambda>ticket.
      let ticket = draw_text ticket (padding cfg, 20)
                     (''N: '' @ str_int (ticket_number ticket_data)) (font_bold g) (RGB3 0 0 0);
          ticket = draw_text ticket (padding cfg, 70)
                     (owner_label @ owner ticket_data) (font_small g) (RGB3 0 0 0);
          ticket = draw_text ticket (padding cfg, 130)
                     ''Informations'' (font_large g) (RGB3 255 215 0);
          y_pos = 180;
          title_text = title (event ticket_data);
          (title_width, _) = get_text_dimensions ev title_text (font_bold g);
          ticket = draw_text ticket (padding cfg, y_pos) title_text (font_bold g) (RGB3 0 0 0);
          category_text = category (event ticket_data);
          (category_width, category_height) =
             get_text_dimensions ev category_text (font_small g);
          category_x = padding cfg + title_width + 10;
          category_y = y_pos + 5
      in and_then (create_rounded_rectangle ticket
                     (category_x, category_y,
                      category_x + category_width + 20,
                      category_y + category_height + 10)
                     10 (RGB3 255 215 0)) (\<lambda>ticket.
         let ticket = draw_text ticket (category_x + 10, category_y + 2) category_text
                        (font_small g) (RGB3 0 0 0);
             details = [(''calendar'', date (event ticket_data), Some 0),
                        (''clock'', time (event ticket_data), None),
                        (''map'', location (event ticket_data), None),
                        (''ticket'', ticket_type (event ticket_data), None)]
         in and_then (draw_details g details 260 ticket) (\<lambda>ticket.
            add_qr_code ev ticket (qr_data ticket_data))))))))"

definition main :: "env \<Rightarrow> error + image" where
  \<comment> \<open>the \<^verbatim>\<open>__main__\<close> block, up to the image it hands to \<^verbatim>\<open>show\<close>\<close>
  "main ev =
     (let event = \<lparr>title = ''MAGE4'', category = ''Concert'', date = ''19 Septembre 2024'',
            time = ''14 H'', location = ''Antsahamanitra, Antananarivo'',
            ticket_type = ''Bronze'', url = ''https://evntia.tech/event/12''\<rparr>;
          ticket_data = \<lparr>ticket_number = 12, owner = ''RANDRIAMANANTENA LUCA ZO HAINGO'',
            qr_data = url event, event = event\<rparr>
      in and_then (TicketGenerator_init ev default_config ''icons'') (\<lambda>generator.
         and_then (generate_ticket ev generator ''./Mage4.jpg'' ticket_data) (\<lambda>ticket.
         Inr (convert ticket Mode_RGB))))"

section \<open>Notions used in the properties\<close>

definition succeeds :: "error + 'a \<Rightarrow> bool" where
  "succeeds m = (\<not> isl m)"

definition frame :: "image \<Rightarrow> mode \<times> int \<times> int" where
  "frame im = (imode im, iwidth im, iheight im)"

definition logo_ready :: "env \<Rightarrow> bool" where
  \<comment> \<open>the logo file decodes and its mode can serve as a paste mask\<close>
  "logo_ready ev = (case image_files ev ''./EVNTia.png'' of
       Inl e \<Rightarrow> False
     | Inr (m, w, h) \<Rightarrow> m = Mode_1 \<or> m = Mode_L \<or> m = Mode_LA \<or> m = Mode_RGBA)"

definition assets_ready :: "env \<Rightarrow> TicketGenerator \<Rightarrow> string \<Rightarrow> TicketData \<Rightarrow> bool" where
  \<comment> \<open>the canvas size is acceptable, the background fits, the badge has room for its
      corners, the payload fits a QR version and the logo can be pasted\<close>
  "assets_ready ev g p d =
     (0 \<le> width (config g) \<and> 0 \<le> height (config g)
      \<and> succeeds (process_background ev (config g) p)
      \<and> (case get_text_dimensions ev (category (event d)) (font_small g) of
           (category_width, category_height) \<Rightarrow> 0 \<le> category_width \<and> 10 \<le> category_height)
      \<and> succeeds (best_fit ev (qr_data d) 2) \<and> logo_ready ev)"

definition render_ready :: "env \<Rightarrow> TicketGenerator \<Rightarrow> string \<Rightarrow> TicketData \<Rightarrow> bool" where
  \<comment> \<open>what a call of \<open>generate_ticket\<close> needs in order to return\<close>
  "render_ready ev g p d =
     (assets_ready ev g p d \<and> list_all (\<lambda>n. icons g n \<noteq> None) (map fst icon_files))"


subsection \<open>A run of the demonstration\<close>

text \<open>
  An environment for the demonstration in the \<^verbatim>\<open>__main__\<close> block: a 1920 by 1080
  background, a logo with an alpha channel, one icon file out of four, no Arial fonts, and
  a QR encoder that puts the payload in one byte-mode segment.
\<close>

definition demo_env :: env where
  "demo_env = \<lparr>
     image_files = (\<lambda>p. if p = ''./Mage4.jpg'' then Inr (Mode_RGB, 1920, 1080)
                         else if p = ''./EVNTia.png'' then Inr (Mode_RGBA, 400, 200)
                         else if p = ''icons/calendar.png'' then Inr (Mode_RGB, 64, 64)
                         else Inl IOError),
     font_files = (\<lambda>name sz. Some IOError),
     text_bbox = (\<lambda>f s. (0, 3, 7 * int (length s), 14)),
     qr_bits = byte_mode_bits\<rparr>"

definition demo_data :: TicketData where
  "demo_data = \<lparr>ticket_number = 12, owner = ''RANDRIAMANANTENA LUCA ZO HAINGO'',
     qr_data = ''https://evntia.tech/event/12'',
     event = \<lparr>title = ''MAGE4'', category = ''Concert'', date = ''19 Septembre 2024'',
       time = ''14 H'', location = ''Antsahamanitra, Antananarivo'', ticket_type = ''Bronze'',
       url = ''https://evntia.tech/event/12''\<rparr>\<rparr>"

definition demo_generator :: TicketGenerator where
  "demo_generator = projr (TicketGenerator_init demo_env default_config ''icons'')"

definition demo_ticket :: image where
  "demo_ticket = projr (generate_ticket demo_env demo_generator ''./Mage4.jpg'' demo_data)"

subsection \<open>What has been drawn on a canvas\<close>

text \<open>
  The drawing calls made on an image since it was created, in order. Pasting keeps them;
  an image made by another call starts with none.
\<close>

fun drawn :: "pic \<Rightarrow> drawing list" where
  "drawn (Draw p d) = drawn p @ [d]"
| "drawn (Pasted p src pos msk) = drawn p"
| "drawn p = []"

definition detail_text :: "TicketGenerator \<Rightarrow> int \<Rightarrow> string \<Rightarrow> drawing" where
  "detail_text g y s = Text (padding (config g) + icon_size (config g) + 10,
     y + (icon_size (config g) - font_small_size (config g)) div 2) s (font_small g) (RGB3 81 79 79)"

definition badge_coords :: "env \<Rightarrow> TicketGenerator \<Rightarrow> TicketData \<Rightarrow> int \<times> int \<times> int \<times> int" where
  "badge_coords ev g d =
     (let category_x = padding (config g)
            + fst (get_text_dimensions ev (title (event d)) (font_bold g)) + 10;
          category_y = 185
      in (category_x, category_y,
          category_x + fst (get_text_dimensions ev (category (event d)) (font_small g)) + 20,
          category_y + snd (get_text_dimensions ev (category (event d)) (font_small g)) + 10))"

definition layout :: "env \<Rightarrow> TicketGenerator \<Rightarrow> TicketData \<Rightarrow> drawing list" where
  "layout ev g d =
     [Text (padding (config g), 20) (''N: '' @ str_int (ticket_number d)) (font_bold g) (RGB3 0 0 0),
      Text (padding (config g), 70) (owner_label @ owner d) (font_small g) (RGB3 0 0 0),
      Text (padding (config g), 130) ''Informations'' (font_large g) (RGB3 255 215 0),
      Text (padding (config g), 180) (title (event d)) (font_bold g) (RGB3 0 0 0)]
     @ map (\<lambda>s. Fill s (RGB3 255 215 0)) (rounded_rectangle_shapes (badge_coords ev g d) 10)
     @ [Text (fst (badge_coords ev g d) + 10, 187) (category (event d)) (font_small g) (RGB3 0 0 0),
        detail_text g 260 (date (event d)),
        detail_text g 300 (time (event d)),
        detail_text g 340 (location (event d)),
        detail_text g 380 (ticket_type (event d))]"

subsection \<open>Inputs that make the QR step fail\<close>




subsection \<open>The area a list of fills covers\<close>

definition filled :: "shape list \<Rightarrow> int \<times> int \<Rightarrow> bool" where
  "filled ss p = list_ex (\<lambda>s. covers s p) ss"

definition in_corner_square :: "int \<times> int \<times> int \<times> int \<Rightarrow> int \<Rightarrow> int \<times> int \<Rightarrow> bool" where
  "in_corner_square coords r p = (case coords of (x1, y1, x2, y2) \<Rightarrow> case p of (x, y) \<Rightarrow>
     (x < x1 + r \<or> x2 - r < x) \<and> (y < y1 + r \<or> y2 - r < y))"

definition clamp_to :: "int \<Rightarrow> int \<Rightarrow> int \<Rightarrow> int" where
  "clamp_to lo hi v = max lo (min hi v)"

definition in_rounded_rectangle :: "int \<times> int \<times> int \<times> int \<Rightarrow> int \<Rightarrow> int \<times> int \<Rightarrow> bool" where
  \<comment> \<open>within distance \<open>r\<close> of the rectangle inset by \<open>r\<close> on every side\<close>
  "in_rounded_rectangle coords r p = (case coords of (x1, y1, x2, y2) \<Rightarrow> case p of (x, y) \<Rightarrow>
     (x - clamp_to (x1 + r) (x2 - r) x)\<^sup>2 + (y - clamp_to (y1 + r) (y2 - r) y)\<^sup>2 \<le> r\<^sup>2)"

fun span :: "shape \<Rightarrow> int option" where
  "span (Rect x0 y0 x1 y1) = None"
| "span (Pie x0 y0 x1 y1 a b) = Some (b - a)"

subsection \<open>A background whose overflow is an odd number of pixels\<close>

definition square_config :: TicketConfig where
  "square_config = default_config\<lparr>width := 3, height := 3\<rparr>"

definition wide_env :: env where
  \<comment> \<open>the demonstration's files and a background of 4 by 2 pixels\<close>
  "wide_env = demo_env\<lparr>image_files :=
     (\<lambda>p. if p = ''./wide.png'' then Inr (Mode_RGB, 4, 2) else image_files demo_env p)\<rparr>"

subsection \<open>The gradient\<close>




subsection \<open>A configuration with a negative icon size\<close>


section \<open>Properties\<close>

subsection \<open>Results\<close>

lemma and_then_simps [simp]:
  "and_then (Inl e) f = Inl e" "and_then (Inr x) f = f x"
  by (simp_all add: and_then_def)

lemma and_then_Inr: "and_then m f = Inr y \<longleftrightarrow> (\<exists>x. m = Inr x \<and> f x = Inr y)"
  by (cases m) simp_all

lemma succeeds_iff: "succeeds m \<longleftrightarrow> (\<exists>x. m = Inr x)"
  by (cases m) (simp_all add: succeeds_def)

lemma succeeds_simps [simp]: "succeeds (Inr x)" "\<not> succeeds (Inl e)"
  by (simp_all add: succeeds_def)

lemma succeeds_and_then:
  "succeeds (and_then m f) \<longleftrightarrow> (\<exists>x. m = Inr x \<and> succeeds (f x))"
  by (cases m) simp_all

lemma ex_Inr_conj: "(\<exists>x. m = Inr x \<and> P) \<longleftrightarrow> succeeds m \<and> P"
  by (auto simp: succeeds_iff)

subsection \<open>Mode and size are kept by every drawing step\<close>

lemma paste_frame: "paste dst src pos m = Inr r \<Longrightarrow> frame r = frame dst"
  by (auto simp: paste_def frame_def split: option.splits if_splits)

lemma draw_text_frame [simp]: "frame (draw_text im xy s f c) = frame im"
  by (simp add: draw_text_def frame_def)

lemma draw_line_frame [simp]: "frame (draw_line im xy c) = frame im"
  by (simp add: draw_line_def frame_def split: prod.splits)

lemma draw_shape_frame: "draw_shape im s c = Inr r \<Longrightarrow> frame r = frame im"
  by (cases s) (auto simp: draw_rectangle_def draw_pieslice_def frame_def split: if_splits)

lemma draw_shapes_frame: "draw_shapes im ss c = Inr r \<Longrightarrow> frame r = frame im"
proof (induction ss arbitrary: im)
  case Nil
  then show ?case by simp
next
  case (Cons s ss)
  then obtain im' where a: "draw_shape im s c = Inr im'" and b: "draw_shapes im' ss c = Inr r"
    by (auto simp: and_then_Inr)
  from Cons.IH [OF b] draw_shape_frame [OF a] show ?case by simp
qed

lemma create_rounded_rectangle_frame:
  "create_rounded_rectangle im coords radius c = Inr r \<Longrightarrow> frame r = frame im"
  unfolding create_rounded_rectangle_def by (rule draw_shapes_frame)

lemma draw_icon_with_text_frame:
  "draw_icon_with_text g im x y t s = Inr r \<Longrightarrow> frame r = frame im"
  by (auto simp: draw_icon_with_text_def and_then_Inr Let_def
      split: option.splits if_splits dest!: paste_frame)

lemma add_qr_code_frame: "add_qr_code ev im payload = Inr r \<Longrightarrow> frame r = frame im"
  by (auto simp: add_qr_code_def and_then_Inr Let_def dest!: paste_frame)

lemma gradient_loop_frame: "gradient_loop cfg is gr = Inr r \<Longrightarrow> frame r = frame gr"
proof (induction "is" arbitrary: gr)
  case Nil
  then show ?case by simp
next
  case (Cons i "is")
  then obtain a where
    "gradient_loop cfg is (draw_line gr (i, 0, i, height cfg) (RGBA4 255 255 255 a)) = Inr r"
    by (auto simp: and_then_Inr)
  from Cons.IH [OF this] show ?case by simp
qed

lemma add_gradient_frame:
  assumes "add_gradient cfg im = Inr r"
  shows "frame r = (Mode_RGBA, width cfg, height cfg)"
proof -
  from assms obtain g0 g1 where
    g0: "Image_new Mode_RGBA (width cfg, height cfg) (RGBA4 255 255 255 0) = Inr g0"
    and g1: "gradient_loop cfg (py_range (width cfg)) g0 = Inr g1"
    and r: "alpha_composite (convert im Mode_RGBA) g1 = Inr r"
    by (auto simp: add_gradient_def and_then_Inr)
  from g0 have f0: "frame g0 = (Mode_RGBA, width cfg, height cfg)"
    by (auto simp: Image_new_def frame_def split: if_splits)
  from gradient_loop_frame [OF g1] f0 have f1: "frame g1 = (Mode_RGBA, width cfg, height cfg)"
    by simp
  from r f1 show ?thesis
    by (auto simp: alpha_composite_def frame_def convert_def split: if_splits)
qed

lemma generate_ticket_frame:
  assumes "generate_ticket ev g p d = Inr img"
  shows "frame img = (Mode_RGBA, width (config g), height (config g))"
  using assms
  by (auto simp: generate_ticket_def Let_def and_then_Inr case_prod_beta
      dest!: add_qr_code_frame draw_icon_with_text_frame create_rounded_rectangle_frame
        add_gradient_frame)

subsection \<open>When each step returns\<close>

lemma gradient_alpha_succeeds: "w \<noteq> 0 \<Longrightarrow> succeeds (gradient_alpha w i)"
  by (simp add: gradient_alpha_def int_truediv_def)

lemma gradient_loop_succeeds: "width cfg \<noteq> 0 \<Longrightarrow> succeeds (gradient_loop cfg is gr)"
proof (induction "is" arbitrary: gr)
  case Nil
  then show ?case by simp
next
  case (Cons i "is")
  from gradient_alpha_succeeds [OF Cons.prems, of i]
  obtain a where "gradient_alpha (width cfg) i = Inr a" by (auto simp: succeeds_iff)
  with Cons show ?case by simp
qed

lemma py_range_empty: "n \<le> 0 \<Longrightarrow> py_range n = []"
  by (simp add: py_range_def)

lemma add_gradient_succeeds:
  "succeeds (add_gradient cfg im) \<longleftrightarrow>
     0 \<le> width cfg \<and> 0 \<le> height cfg \<and> (iwidth im, iheight im) = (width cfg, height cfg)"
proof (cases "0 \<le> width cfg \<and> 0 \<le> height cfg")
  case False
  then show ?thesis by (auto simp: add_gradient_def Image_new_def)
next
  case True
  define g0 where "g0 = \<lparr>imode = Mode_RGBA, iwidth = width cfg, iheight = height cfg,
    ipixels = Blank (RGBA4 255 255 255 0)\<rparr>"
  have new: "Image_new Mode_RGBA (width cfg, height cfg) (RGBA4 255 255 255 0) = Inr g0"
    using True by (simp add: Image_new_def g0_def)
  have "succeeds (gradient_loop cfg (py_range (width cfg)) g0)"
  proof (cases "width cfg = 0")
    case True
    then show ?thesis by (simp add: py_range_empty)
  next
    case False
    then show ?thesis by (rule gradient_loop_succeeds)
  qed
  then obtain g1 where loop: "gradient_loop cfg (py_range (width cfg)) g0 = Inr g1"
    by (auto simp: succeeds_iff)
  from gradient_loop_frame [OF loop] have "frame g1 = (Mode_RGBA, width cfg, height cfg)"
    by (simp add: frame_def g0_def)
  then show ?thesis using True
    by (auto simp: add_gradient_def new loop alpha_composite_def convert_def frame_def)
qed

lemma create_rounded_rectangle_succeeds:
  "succeeds (create_rounded_rectangle im (x1, y1, x2, y2) r c) \<longleftrightarrow>
     x1 + r \<le> x2 - r \<and> y1 \<le> y2 \<and> x1 \<le> x2 \<and> y1 + r \<le> y2 - r \<and> 0 \<le> r"
  by (auto simp: create_rounded_rectangle_def rounded_rectangle_shapes_def
      draw_rectangle_def draw_pieslice_def)

lemma draw_icon_with_text_succeeds:
  "succeeds (draw_icon_with_text g im x y t s) \<longleftrightarrow> icons g t \<noteq> None"
  by (auto simp: draw_icon_with_text_def paste_def has_alpha_def split: option.splits)

lemma draw_details_succeeds:
  "succeeds (draw_details g ds y im) \<longleftrightarrow> list_all (\<lambda>(t, s, off). icons g t \<noteq> None) ds"
proof (induction ds arbitrary: y im)
  case Nil
  then show ?case by simp
next
  case (Cons a ds)
  obtain t s off where a: "a = (t, s, off)" by (cases a) auto
  show ?case
    by (simp add: a Let_def case_prod_beta succeeds_and_then Cons.IH
        draw_icon_with_text_succeeds flip: succeeds_iff)
qed

lemma resize_Inr:
  "resize im (w, h) f = Inr r \<Longrightarrow> imode r = imode im \<and> iwidth r = w \<and> iheight r = h"
  by (auto simp: resize_def split: if_splits)

lemma resize_succeeds:
  "succeeds (resize im (w, h) f) \<longleftrightarrow> (iwidth im, iheight im) = (w, h) \<or> 1 \<le> w \<and> 1 \<le> h"
  by (auto simp: resize_def)

lemma paste_succeeds:
  "succeeds (paste dst src pos msk) \<longleftrightarrow> (case msk of None \<Rightarrow> True | Some m \<Rightarrow>
     (imode m = Mode_1 \<or> imode m = Mode_L \<or> imode m = Mode_LA \<or> imode m = Mode_RGBA)
     \<and> (iwidth m, iheight m) = (iwidth src, iheight src))"
  by (auto simp: paste_def has_alpha_def split: option.splits)

lemma add_qr_code_succeeds:
  "succeeds (add_qr_code ev im payload) \<longleftrightarrow> succeeds (best_fit ev payload 2) \<and> logo_ready ev"
proof (cases "best_fit ev payload 2")
  case (Inl e)
  then show ?thesis by (simp add: add_qr_code_def QRCode_make_def)
next
  case (Inr v)
  define qr0 where "qr0 = convert (make_image payload v 8 2) Mode_RGB"
  have "succeeds (resize qr0 (320, 320) BICUBIC)" by (simp add: resize_succeeds)
  then obtain qr1 where qr1: "resize qr0 (320, 320) BICUBIC = Inr qr1"
    by (auto simp: succeeds_iff)
  show ?thesis
  proof (cases "image_files ev ''./EVNTia.png''")
    case (Inl e)
    then show ?thesis
      by (simp add: add_qr_code_def QRCode_make_def Inr Let_def qr0_def [symmetric] qr1
          Image_open_def logo_ready_def)
  next
    case r: (Inr hdr)
    obtain m w h where hdr: "hdr = (m, w, h)" by (cases hdr) auto
    define logo0 where
      "logo0 = \<lparr>imode = m, iwidth = w, iheight = h, ipixels = File ''./EVNTia.png''\<rparr>"
    have open_logo: "Image_open ev ''./EVNTia.png'' = Inr logo0"
      by (simp add: Image_open_def r hdr logo0_def)
    have "succeeds (resize logo0 (80, 40) BICUBIC)" by (simp add: resize_succeeds)
    then obtain logo1 where logo1: "resize logo0 (80, 40) BICUBIC = Inr logo1"
      by (auto simp: succeeds_iff)
    from resize_Inr [OF logo1] have m1: "imode logo1 = m" by (simp add: logo0_def)
    show ?thesis
      by (simp add: add_qr_code_def QRCode_make_def Inr Let_def qr0_def [symmetric] qr1
          open_logo logo1 succeeds_and_then paste_succeeds m1 logo_ready_def r hdr
          flip: succeeds_iff)
  qed
qed

lemma generate_ticket_succeeds:
  "succeeds (generate_ticket ev g p d) \<longleftrightarrow> render_ready ev g p d"
proof (cases "0 \<le> width (config g) \<and> 0 \<le> height (config g)")
  case False
  then show ?thesis
    by (auto simp: generate_ticket_def Let_def Image_new_def render_ready_def assets_ready_def)
next
  case wh: True
  define t0 where "t0 = \<lparr>imode = Mode_RGB, iwidth = width (config g),
    iheight = height (config g), ipixels = Blank (Named ''white'')\<rparr>"
  have new: "Image_new Mode_RGB (width (config g), height (config g)) (Named ''white'') = Inr t0"
    using wh by (simp add: Image_new_def t0_def)
  show ?thesis
  proof (cases "process_background ev (config g) p")
    case (Inl e)
    then show ?thesis
      by (simp add: generate_ticket_def Let_def new render_ready_def assets_ready_def)
  next
    case (Inr bg)
    define t1 where "t1 = t0\<lparr>ipixels := Pasted (ipixels t0) (ipixels bg) (0, 0) None\<rparr>"
    have pasted: "paste t0 bg (0, 0) None = Inr t1"
      by (simp add: paste_def t1_def)
    have "succeeds (add_gradient (config g) t1)"
      using wh by (simp add: add_gradient_succeeds t1_def t0_def)
    then obtain t2 where grad: "add_gradient (config g) t1 = Inr t2"
      by (auto simp: succeeds_iff)
    show ?thesis
      by (auto simp add: generate_ticket_def Let_def new Inr pasted grad case_prod_beta
          succeeds_and_then add_qr_code_succeeds draw_icon_with_text_succeeds ex_Inr_conj
          create_rounded_rectangle_succeeds render_ready_def assets_ready_def wh icon_files_def
          draw_details_succeeds simp del: draw_details.simps simp flip: succeeds_iff)
  qed
qed

subsection \<open>The demonstration run returns\<close>

lemma demo_init: "TicketGenerator_init demo_env default_config ''icons'' = Inr demo_generator"
proof -
  have "\<not> isl (TicketGenerator_init demo_env default_config ''icons'')" by code_simp
  then show ?thesis by (simp add: demo_generator_def)
qed

lemma demo_config: "config demo_generator = default_config"
  unfolding demo_generator_def by code_simp

lemma demo_ready: "render_ready demo_env demo_generator ''./Mage4.jpg'' demo_data"
  unfolding demo_generator_def by code_simp

lemma demo_run:
  "generate_ticket demo_env demo_generator ''./Mage4.jpg'' demo_data = Inr demo_ticket"
proof -
  from demo_ready have "succeeds (generate_ticket demo_env demo_generator ''./Mage4.jpg'' demo_data)"
    by (simp add: generate_ticket_succeeds)
  then show ?thesis by (simp add: succeeds_def demo_ticket_def)
qed

subsection \<open>The drawing calls of a render\<close>

lemma paste_drawn: "paste dst src pos m = Inr r \<Longrightarrow> drawn (ipixels r) = drawn (ipixels dst)"
  by (auto simp: paste_def split: option.splits if_splits)

lemma draw_text_drawn [simp]:
  "drawn (ipixels (draw_text im xy s f c)) = drawn (ipixels im) @ [Text xy s f c]"
  by (simp add: draw_text_def)

lemma draw_shape_drawn:
  "draw_shape im s c = Inr r \<Longrightarrow> drawn (ipixels r) = drawn (ipixels im) @ [Fill s c]"
  by (cases s) (auto simp: draw_rectangle_def draw_pieslice_def split: if_splits)

lemma draw_shapes_drawn:
  "draw_shapes im ss c = Inr r \<Longrightarrow>
     drawn (ipixels r) = drawn (ipixels im) @ map (\<lambda>s. Fill s c) ss"
proof (induction ss arbitrary: im)
  case Nil
  then show ?case by simp
next
  case (Cons s ss)
  then obtain im' where a: "draw_shape im s c = Inr im'" and b: "draw_shapes im' ss c = Inr r"
    by (auto simp: and_then_Inr)
  from Cons.IH [OF b] draw_shape_drawn [OF a] show ?case by simp
qed

lemma create_rounded_rectangle_drawn:
  "create_rounded_rectangle im coords radius c = Inr r \<Longrightarrow>
     drawn (ipixels r) = drawn (ipixels im)
       @ map (\<lambda>s. Fill s c) (rounded_rectangle_shapes coords radius)"
  unfolding create_rounded_rectangle_def by (rule draw_shapes_drawn)

lemma draw_icon_with_text_drawn:
  "draw_icon_with_text g im x y t s = Inr r \<Longrightarrow>
     drawn (ipixels r) = drawn (ipixels im)
       @ [Text (x + icon_size (config g) + 10,
            y + (icon_size (config g) - font_small_size (config g)) div 2) s
            (font_small g) (RGB3 81 79 79)]"
  by (auto simp: draw_icon_with_text_def and_then_Inr Let_def
      split: option.splits if_splits dest!: paste_drawn)

lemma add_qr_code_drawn:
  "add_qr_code ev im payload = Inr r \<Longrightarrow> drawn (ipixels r) = drawn (ipixels im)"
  by (auto simp: add_qr_code_def and_then_Inr Let_def dest!: paste_drawn)

lemma add_gradient_drawn: "add_gradient cfg im = Inr r \<Longrightarrow> drawn (ipixels r) = []"
  by (auto simp: add_gradient_def and_then_Inr alpha_composite_def split: if_splits)

lemma generate_ticket_drawn:
  assumes "generate_ticket ev g p d = Inr img"
  shows "drawn (ipixels img) = layout ev g d"
  using assms
  by (auto simp: generate_ticket_def Let_def and_then_Inr case_prod_beta layout_def
      badge_coords_def detail_text_def
      dest!: add_qr_code_drawn draw_icon_with_text_drawn create_rounded_rectangle_drawn
        add_gradient_drawn)


lemma demo_fonts:
  "font_large demo_generator = DefaultFont" "font_small demo_generator = DefaultFont"
  "font_bold demo_generator = DefaultFont"
  unfolding demo_generator_def by code_simp+

subsection \<open>The version the QR encoder picks\<close>














subsection \<open>Loading the icons\<close>





lemma load_icon_frame:
  assumes "load_icon ev cfg folder f = Inr icon"
  shows "frame icon = (Mode_RGBA, icon_size cfg, icon_size cfg)"
proof (cases "and_then (Image_open ev (path_join folder f)) (\<lambda>icon.
           resize (convert icon Mode_RGBA) (icon_size cfg, icon_size cfg) LANCZOS)")
  case (Inl e)
  with assms have "placeholder_icon cfg = Inr icon" by (simp add: load_icon_def)
  then show ?thesis
    by (auto simp: placeholder_icon_def Image_new_def frame_def split: if_splits)
next
  case (Inr i)
  with assms have i: "i = icon" by (simp add: load_icon_def)
  from Inr obtain im where "resize (convert im Mode_RGBA) (icon_size cfg, icon_size cfg) LANCZOS = Inr i"
    by (auto simp: and_then_Inr)
  from resize_Inr [OF this] show ?thesis by (simp add: frame_def i convert_def)
qed






subsection \<open>What a render reads from outside\<close>

lemma process_background_cong:
  "image_files ev p = image_files ev' p \<Longrightarrow>
     process_background ev cfg p = process_background ev' cfg p"
  by (simp add: process_background_def Image_open_def)

lemma get_text_dimensions_cong:
  "text_bbox ev = text_bbox ev' \<Longrightarrow> get_text_dimensions ev s f = get_text_dimensions ev' s f"
  by (simp add: get_text_dimensions_def textbbox_def)

lemma add_qr_code_cong:
  "qr_bits ev = qr_bits ev' \<Longrightarrow>
   image_files ev ''./EVNTia.png'' = image_files ev' ''./EVNTia.png'' \<Longrightarrow>
     add_qr_code ev im payload = add_qr_code ev' im payload"
  by (simp add: add_qr_code_def QRCode_make_def best_fit_def fits_def [abs_def] Image_open_def)

lemma generate_ticket_cong:
  assumes "image_files ev p = image_files ev' p"
    and "image_files ev ''./EVNTia.png'' = image_files ev' ''./EVNTia.png''"
    and "text_bbox ev = text_bbox ev'" and "qr_bits ev = qr_bits ev'"
  shows "generate_ticket ev g p d = generate_ticket ev' g p d"
  by (simp add: generate_ticket_def process_background_cong [OF assms(1)]
      get_text_dimensions_cong [OF assms(3)] add_qr_code_cong [OF assms(4) assms(2)])

subsection \<open>The rounded rectangle\<close>

lemma in_circle:
  assumes "0 < r" and "x1 = x0 + r * 2" and "y1 = y0 + r * 2"
  shows "in_ellipse (x0, y0, x1, y1) (x, y) \<longleftrightarrow>
     x0 \<le> x \<and> x \<le> x1 \<and> y0 \<le> y \<and> y \<le> y1 \<and> (x - (x0 + r))\<^sup>2 + (y - (y0 + r))\<^sup>2 \<le> r\<^sup>2"
proof -
  have l: "((2 * x - x0 - x1) * (y1 - y0))\<^sup>2 + ((2 * y - y0 - y1) * (x1 - x0))\<^sup>2
      = (16 * r\<^sup>2) * ((x - (x0 + r))\<^sup>2 + (y - (y0 + r))\<^sup>2)"
    unfolding assms(2,3) by (simp add: power2_eq_square algebra_simps)
  have r: "((x1 - x0) * (y1 - y0))\<^sup>2 = (16 * r\<^sup>2) * r\<^sup>2"
    unfolding assms(2,3) by (simp add: power2_eq_square algebra_simps)
  have "0 < 16 * r\<^sup>2" using assms(1) by simp
  then have "(16 * r\<^sup>2) * ((x - (x0 + r))\<^sup>2 + (y - (y0 + r))\<^sup>2) \<le> (16 * r\<^sup>2) * r\<^sup>2
      \<longleftrightarrow> (x - (x0 + r))\<^sup>2 + (y - (y0 + r))\<^sup>2 \<le> r\<^sup>2"
    by (rule mult_le_cancel_left_pos)
  then show ?thesis by (simp add: in_ellipse_def l r)
qed

lemma sq_le_iff: "0 \<le> r \<Longrightarrow> (d::int)\<^sup>2 \<le> r\<^sup>2 \<longleftrightarrow> \<bar>d\<bar> \<le> r"
  by (metis abs_le_square_iff abs_of_nonneg)

lemma pie_top_left:
  assumes "0 < r"
  shows "covers (Pie x1 y1 (x1 + r * 2) (y1 + r * 2) 180 270) (x, y) \<longleftrightarrow>
     x1 \<le> x \<and> x \<le> x1 + r \<and> y1 \<le> y \<and> y \<le> y1 + r
     \<and> (x - (x1 + r))\<^sup>2 + (y - (y1 + r))\<^sup>2 \<le> r\<^sup>2"
proof -
  have "in_ellipse (x1, y1, x1 + r * 2, y1 + r * 2) (x, y) \<longleftrightarrow>
      x1 \<le> x \<and> x \<le> x1 + r * 2 \<and> y1 \<le> y \<and> y \<le> y1 + r * 2
      \<and> (x - (x1 + r))\<^sup>2 + (y - (y1 + r))\<^sup>2 \<le> r\<^sup>2"
    by (rule in_circle [OF assms]) simp_all
  then show ?thesis using assms by (auto simp: in_quadrant_def)
qed

lemma pie_top_right:
  assumes "0 < r"
  shows "covers (Pie (x2 - r * 2) y1 x2 (y1 + r * 2) 270 360) (x, y) \<longleftrightarrow>
     x2 - r \<le> x \<and> x \<le> x2 \<and> y1 \<le> y \<and> y \<le> y1 + r
     \<and> (x - (x2 - r))\<^sup>2 + (y - (y1 + r))\<^sup>2 \<le> r\<^sup>2"
proof -
  have "in_ellipse (x2 - r * 2, y1, x2, y1 + r * 2) (x, y) \<longleftrightarrow>
      x2 - r * 2 \<le> x \<and> x \<le> x2 \<and> y1 \<le> y \<and> y \<le> y1 + r * 2
      \<and> (x - (x2 - r))\<^sup>2 + (y - (y1 + r))\<^sup>2 \<le> r\<^sup>2"
    using in_circle [OF assms, of x2 "x2 - r * 2" "y1 + r * 2" y1 x y] by simp
  then show ?thesis using assms by (auto simp: in_quadrant_def)
qed

lemma pie_bottom_left:
  assumes "0 < r"
  shows "covers (Pie x1 (y2 - r * 2) (x1 + r * 2) y2 90 180) (x, y) \<longleftrightarrow>
     x1 \<le> x \<and> x \<le> x1 + r \<and> y2 - r \<le> y \<and> y \<le> y2
     \<and> (x - (x1 + r))\<^sup>2 + (y - (y2 - r))\<^sup>2 \<le> r\<^sup>2"
proof -
  have "in_ellipse (x1, y2 - r * 2, x1 + r * 2, y2) (x, y) \<longleftrightarrow>
      x1 \<le> x \<and> x \<le> x1 + r * 2 \<and> y2 - r * 2 \<le> y \<and> y \<le> y2
      \<and> (x - (x1 + r))\<^sup>2 + (y - (y2 - r))\<^sup>2 \<le> r\<^sup>2"
    using in_circle [OF assms, of "x1 + r * 2" x1 y2 "y2 - r * 2" x y] by simp
  then show ?thesis using assms by (auto simp: in_quadrant_def)
qed

lemma pie_bottom_right:
  assumes "0 < r"
  shows "covers (Pie (x2 - r * 2) (y2 - r * 2) x2 y2 0 90) (x, y) \<longleftrightarrow>
     x2 - r \<le> x \<and> x \<le> x2 \<and> y2 - r \<le> y \<and> y \<le> y2
     \<and> (x - (x2 - r))\<^sup>2 + (y - (y2 - r))\<^sup>2 \<le> r\<^sup>2"
proof -
  have "in_ellipse (x2 - r * 2, y2 - r * 2, x2, y2) (x, y) \<longleftrightarrow>
      x2 - r * 2 \<le> x \<and> x \<le> x2 \<and> y2 - r * 2 \<le> y \<and> y \<le> y2
      \<and> (x - (x2 - r))\<^sup>2 + (y - (y2 - r))\<^sup>2 \<le> r\<^sup>2"
    using in_circle [OF assms, of x2 "x2 - r * 2" y2 "y2 - r * 2" x y] by simp
  then show ?thesis using assms by (auto simp: in_quadrant_def)
qed

lemma filled_unfold:
  assumes "0 < r"
  shows "filled (rounded_rectangle_shapes (x1, y1, x2, y2) r) (x, y) \<longleftrightarrow>
     (x1 + r \<le> x \<and> x \<le> x2 - r \<and> y1 \<le> y \<and> y \<le> y2)
   \<or> (x1 \<le> x \<and> x \<le> x2 \<and> y1 + r \<le> y \<and> y \<le> y2 - r)
   \<or> (x1 \<le> x \<and> x \<le> x1 + r \<and> y1 \<le> y \<and> y \<le> y1 + r
        \<and> (x - (x1 + r))\<^sup>2 + (y - (y1 + r))\<^sup>2 \<le> r\<^sup>2)
   \<or> (x2 - r \<le> x \<and> x \<le> x2 \<and> y1 \<le> y \<and> y \<le> y1 + r
        \<and> (x - (x2 - r))\<^sup>2 + (y - (y1 + r))\<^sup>2 \<le> r\<^sup>2)
   \<or> (x1 \<le> x \<and> x \<le> x1 + r \<and> y2 - r \<le> y \<and> y \<le> y2
        \<and> (x - (x1 + r))\<^sup>2 + (y - (y2 - r))\<^sup>2 \<le> r\<^sup>2)
   \<or> (x2 - r \<le> x \<and> x \<le> x2 \<and> y2 - r \<le> y \<and> y \<le> y2
        \<and> (x - (x2 - r))\<^sup>2 + (y - (y2 - r))\<^sup>2 \<le> r\<^sup>2)"
  unfolding filled_def rounded_rectangle_shapes_def
  by (simp only: prod.case list_ex_Nil_iff list_ex_Cons_iff covers.simps(1) pie_top_left [OF assms]
      pie_top_right [OF assms] pie_bottom_left [OF assms] pie_bottom_right [OF assms]
      simp_thms)

lemma sum_sq_le:
  assumes "(u::int)\<^sup>2 + v\<^sup>2 \<le> r\<^sup>2" and "0 \<le> r"
  shows "\<bar>u\<bar> \<le> r" and "\<bar>v\<bar> \<le> r"
proof -
  have "u\<^sup>2 \<le> r\<^sup>2" "v\<^sup>2 \<le> r\<^sup>2"
    using assms(1) zero_le_power2 [of u] zero_le_power2 [of v] by linarith+
  then show "\<bar>u\<bar> \<le> r" and "\<bar>v\<bar> \<le> r"
    using assms(2) by (simp_all add: sq_le_iff)
qed

lemma filled_iff_rounded:
  assumes r: "0 < r" and w: "2 * r \<le> x2 - x1" and h: "2 * r \<le> y2 - y1"
  shows "filled (rounded_rectangle_shapes (x1, y1, x2, y2) r) (x, y) \<longleftrightarrow>
     in_rounded_rectangle (x1, y1, x2, y2) r (x, y)"
proof -
  let ?dx = "x - clamp_to (x1 + r) (x2 - r) x" and ?dy = "y - clamp_to (y1 + r) (y2 - r) y"
  have rhs: "in_rounded_rectangle (x1, y1, x2, y2) r (x, y) \<longleftrightarrow> ?dx\<^sup>2 + ?dy\<^sup>2 \<le> r\<^sup>2"
    by (simp add: in_rounded_rectangle_def)
  have r0: "0 \<le> r" using r by simp
  consider (mx) "x1 + r \<le> x \<and> x \<le> x2 - r" | (lx) "x < x1 + r" | (gx) "x2 - r < x"
    by linarith
  then show ?thesis
  proof cases
    case mx
    then have dx: "?dx = 0" by (simp add: clamp_to_def)
    have "?dy\<^sup>2 \<le> r\<^sup>2 \<longleftrightarrow> y1 \<le> y \<and> y \<le> y2"
      using h r by (auto simp: sq_le_iff [OF r0] clamp_to_def)
    moreover have "filled (rounded_rectangle_shapes (x1, y1, x2, y2) r) (x, y)
        \<longleftrightarrow> y1 \<le> y \<and> y \<le> y2"
      using mx h r unfolding filled_unfold [OF r] by auto
    ultimately show ?thesis by (simp add: rhs dx)
  next
    case lx
    then have dx: "?dx = x - (x1 + r)" using w by (simp add: clamp_to_def)
    consider (my) "y1 + r \<le> y \<and> y \<le> y2 - r" | (ly) "y < y1 + r" | (gy) "y2 - r < y"
      by linarith
    then show ?thesis
    proof cases
      case my
      then have dy: "?dy = 0" by (simp add: clamp_to_def)
      have "(x - (x1 + r))\<^sup>2 \<le> r\<^sup>2 \<longleftrightarrow> x1 \<le> x"
        using lx r by (auto simp: sq_le_iff [OF r0])
      moreover have "filled (rounded_rectangle_shapes (x1, y1, x2, y2) r) (x, y) \<longleftrightarrow> x1 \<le> x"
        using lx my w r unfolding filled_unfold [OF r] by auto
      ultimately show ?thesis by (simp add: rhs dx dy)
    next
      case ly
      then have dy: "?dy = y - (y1 + r)" using h by (simp add: clamp_to_def)
      have "filled (rounded_rectangle_shapes (x1, y1, x2, y2) r) (x, y)
          \<longleftrightarrow> (x - (x1 + r))\<^sup>2 + (y - (y1 + r))\<^sup>2 \<le> r\<^sup>2"
        using lx ly w h r sum_sq_le [OF _ r0, of "x - (x1 + r)" "y - (y1 + r)"]
        unfolding filled_unfold [OF r] by auto
      then show ?thesis by (simp add: rhs dx dy)
    next
      case gy
      then have dy: "?dy = y - (y2 - r)" using h by (simp add: clamp_to_def)
      have "filled (rounded_rectangle_shapes (x1, y1, x2, y2) r) (x, y)
          \<longleftrightarrow> (x - (x1 + r))\<^sup>2 + (y - (y2 - r))\<^sup>2 \<le> r\<^sup>2"
        using lx gy w h r sum_sq_le [OF _ r0, of "x - (x1 + r)" "y - (y2 - r)"]
        unfolding filled_unfold [OF r] by auto
      then show ?thesis by (simp add: rhs dx dy)
    qed
  next
    case gx
    then have dx: "?dx = x - (x2 - r)" using w by (simp add: clamp_to_def)
    consider (my) "y1 + r \<le> y \<and> y \<le> y2 - r" | (ly) "y < y1 + r" | (gy) "y2 - r < y"
      by linarith
    then show ?thesis
    proof cases
      case my
      then have dy: "?dy = 0" by (simp add: clamp_to_def)
      have "(x - (x2 - r))\<^sup>2 \<le> r\<^sup>2 \<longleftrightarrow> x \<le> x2"
        using gx r by (auto simp: sq_le_iff [OF r0])
      moreover have "filled (rounded_rectangle_shapes (x1, y1, x2, y2) r) (x, y) \<longleftrightarrow> x \<le> x2"
        using gx my w r unfolding filled_unfold [OF r] by auto
      ultimately show ?thesis by (simp add: rhs dx dy)
    next
      case ly
      then have dy: "?dy = y - (y1 + r)" using h by (simp add: clamp_to_def)
      have "filled (rounded_rectangle_shapes (x1, y1, x2, y2) r) (x, y)
          \<longleftrightarrow> (x - (x2 - r))\<^sup>2 + (y - (y1 + r))\<^sup>2 \<le> r\<^sup>2"
        using gx ly w h r sum_sq_le [OF _ r0, of "x - (x2 - r)" "y - (y1 + r)"]
        unfolding filled_unfold [OF r] by auto
      then show ?thesis by (simp add: rhs dx dy)
    next
      case gy
      then have dy: "?dy = y - (y2 - r)" using h by (simp add: clamp_to_def)
      have "filled (rounded_rectangle_shapes (x1, y1, x2, y2) r) (x, y)
          \<longleftrightarrow> (x - (x2 - r))\<^sup>2 + (y - (y2 - r))\<^sup>2 \<le> r\<^sup>2"
        using gx gy w h r sum_sq_le [OF _ r0, of "x - (x2 - r)" "y - (y2 - r)"]
        unfolding filled_unfold [OF r] by auto
      then show ?thesis by (simp add: rhs dx dy)
    qed
  qed
qed


lemma two_squares_gt: "0 < (r::int) \<Longrightarrow> \<not> r\<^sup>2 + r\<^sup>2 \<le> r\<^sup>2"
  by (simp add: power2_eq_square)

lemma corners_not_filled:
  assumes r: "0 < r" and w: "2 * r \<le> x2 - x1" and h: "2 * r \<le> y2 - y1"
  shows "\<not> filled (rounded_rectangle_shapes (x1, y1, x2, y2) r) (x1, y1)"
    and "\<not> filled (rounded_rectangle_shapes (x1, y1, x2, y2) r) (x2, y1)"
    and "\<not> filled (rounded_rectangle_shapes (x1, y1, x2, y2) r) (x1, y2)"
    and "\<not> filled (rounded_rectangle_shapes (x1, y1, x2, y2) r) (x2, y2)"
  using assms two_squares_gt [OF r]
  by (simp_all add: filled_iff_rounded [OF assms] in_rounded_rectangle_def clamp_to_def)

lemma outside_corner_squares_filled:
  assumes "0 < r" and "x1 \<le> x \<and> x \<le> x2 \<and> y1 \<le> y \<and> y \<le> y2"
    and "\<not> in_corner_square (x1, y1, x2, y2) r (x, y)"
  shows "filled (rounded_rectangle_shapes (x1, y1, x2, y2) r) (x, y)"
  using assms(2,3) unfolding filled_unfold [OF assms(1)] in_corner_square_def by auto

subsection \<open>Rounding to a float\<close>

lemma pow2_powi: "pow2 k = 2 powi k"
  by (simp add: pow2_def power_int_def inverse_eq_divide power_one_over)

lemma pow2_pos [simp]: "0 < pow2 k"
  by (simp add: pow2_powi)

lemma pow2_nonzero [simp]: "pow2 k \<noteq> 0"
  by (metis less_irrefl pow2_pos)



lemma pow2_strict_mono: "a < b \<Longrightarrow> pow2 a < pow2 b"
  by (simp add: pow2_powi power_int_strict_increasing)






lemma round_half_even_of_int [simp]: "round_half_even (of_int n) = n"
  by (simp add: round_half_even_def)









lemma fl_zero [simp]: "fl 0 = 0"
  by (simp add: fl_def)





subsection \<open>The alpha of a gradient column\<close>

lemma fl_one [simp]: "fl 1 = 1"
  by code_simp

lemma fl_255 [simp]: "fl 255 = 255"
  by code_simp



lemma float_of_int_one [simp]: "float_of_int 1 = 1"
  by (simp add: float_of_int_def)

lemma float_of_int_255 [simp]: "float_of_int 255 = 255"
  by (simp add: float_of_int_def)














section \<open>The claims\<close>

text \<open>
  C1. For a configuration with positive width and height, an image returned by
  \<open>generate_ticket\<close> has exactly the configured width and height.
\<close>

theorem generate_ticket_dimensions:
  assumes "0 < width (config g)" and "0 < height (config g)"
    and "generate_ticket ev g p d = Inr img"
  shows "(iwidth img, iheight img) = (width (config g), height (config g))"
  using generate_ticket_frame [OF assms(3)] by (simp add: frame_def)

theorem generate_ticket_dimensions_witness:
  "0 < width (config demo_generator) \<and> 0 < height (config demo_generator)
   \<and> generate_ticket demo_env demo_generator ''./Mage4.jpg'' demo_data = Inr demo_ticket
   \<and> (iwidth demo_ticket, iheight demo_ticket) = (1202, 450)"
proof -
  have w: "0 < width (config demo_generator)" and h: "0 < height (config demo_generator)"
    by (simp_all add: demo_config default_config_def)
  from generate_ticket_dimensions [OF w h demo_run] w h demo_run show ?thesis
    by (simp add: demo_config default_config_def)
qed

text \<open>
  C4. When the background file cannot be opened, \<open>generate_ticket\<close> returns an error and
  no image; with a canvas size that \<^verbatim>\<open>Image.new\<close> accepts, the error is the one raised by
  opening the file.
\<close>

theorem generate_ticket_missing_background:
  assumes "image_files ev p = Inl e"
  shows "isl (generate_ticket ev g p d)
    \<and> (0 \<le> width (config g) \<and> 0 \<le> height (config g) \<longrightarrow> generate_ticket ev g p d = Inl e)"
proof -
  have bg: "process_background ev (config g) p = Inl e"
    using assms by (simp add: process_background_def Image_open_def)
  have "\<not> succeeds (generate_ticket ev g p d)"
    by (simp add: generate_ticket_succeeds render_ready_def assets_ready_def bg)
  moreover have "generate_ticket ev g p d = Inl e"
    if "0 \<le> width (config g) \<and> 0 \<le> height (config g)"
    using that by (simp add: generate_ticket_def Let_def Image_new_def bg)
  ultimately show ?thesis by (simp add: succeeds_def)
qed

theorem generate_ticket_missing_background_witness:
  "image_files demo_env ''./absent.jpg'' = Inl IOError
   \<and> isl (generate_ticket demo_env demo_generator ''./absent.jpg'' demo_data)
   \<and> 0 \<le> width (config demo_generator) \<and> 0 \<le> height (config demo_generator)
   \<and> generate_ticket demo_env demo_generator ''./absent.jpg'' demo_data = Inl IOError"
proof -
  have f: "image_files demo_env ''./absent.jpg'' = Inl IOError"
    by (simp add: demo_env_def)
  have wh: "0 \<le> width (config demo_generator) \<and> 0 \<le> height (config demo_generator)"
    by (simp add: demo_config default_config_def)
  from generate_ticket_missing_background [OF f, of demo_generator demo_data] f wh
  show ?thesis by simp
qed

text \<open>
  C10. An image returned by \<open>generate_ticket\<close> is of mode RGBA, and the demonstration
  converts what it gets to RGB itself.
\<close>

theorem generate_ticket_mode:
  "(generate_ticket ev g p d = Inr img \<longrightarrow> imode img = Mode_RGBA \<and> has_alpha img)
   \<and> (main ev = Inr shown \<longrightarrow> imode shown = Mode_RGB)"
proof -
  have "imode img = Mode_RGBA \<and> has_alpha img" if "generate_ticket ev g p d = Inr img"
    using generate_ticket_frame [OF that] by (simp add: frame_def has_alpha_def)
  moreover have "imode shown = Mode_RGB" if "main ev = Inr shown"
    using that by (auto simp: main_def Let_def and_then_Inr convert_def)
  ultimately show ?thesis by blast
qed

theorem generate_ticket_mode_witness:
  "generate_ticket demo_env demo_generator ''./Mage4.jpg'' demo_data = Inr demo_ticket
   \<and> imode demo_ticket = Mode_RGBA \<and> has_alpha demo_ticket
   \<and> main demo_env = Inr (convert demo_ticket Mode_RGB)
   \<and> imode (convert demo_ticket Mode_RGB) = Mode_RGB"
proof -
  have m: "main demo_env = Inr (convert demo_ticket Mode_RGB)"
    using demo_run by (simp add: main_def Let_def demo_init demo_data_def)
  from generate_ticket_mode [of demo_env demo_generator "''./Mage4.jpg''" demo_data demo_ticket
      "convert demo_ticket Mode_RGB"] demo_run m
  show ?thesis by simp
qed

text \<open>
  C8. The claim names the text \<open>Owner: \<close> followed by the owner. The program draws the
  owner after the label \<open>owner_label\<close>, which is the French word, at \<open>(padding, 70)\<close>, in
  the small font, in black; it is the second drawing call on the ticket.
\<close>

theorem generate_ticket_owner_text:
  assumes "generate_ticket ev g p d = Inr img"
  shows "drawn (ipixels img) ! 1 =
      Text (padding (config g), 70) (owner_label @ owner d) (font_small g) (RGB3 0 0 0)
    \<and> Text (padding (config g), 70) (owner_label @ owner d) (font_small g) (RGB3 0 0 0)
        \<in> set (drawn (ipixels img))"
  by (simp add: generate_ticket_drawn [OF assms] layout_def)

theorem generate_ticket_owner_text_witness:
  "generate_ticket demo_env demo_generator ''./Mage4.jpg'' demo_data = Inr demo_ticket
   \<and> drawn (ipixels demo_ticket) ! 1 =
       Text (50, 70) (''Propri'' @ [CHR 0xE9] @ ''taire: RANDRIAMANANTENA LUCA ZO HAINGO'')
         DefaultFont (RGB3 0 0 0)"
  using generate_ticket_owner_text [OF demo_run] demo_run
  by (simp add: demo_config demo_fonts default_config_def demo_data_def owner_label_def)

theorem generate_ticket_owner_text_counterexample:
  "generate_ticket demo_env demo_generator ''./Mage4.jpg'' demo_data = Inr demo_ticket
   \<and> Text (padding (config demo_generator), 70) (''Owner: '' @ owner demo_data)
        (font_small demo_generator) (RGB3 0 0 0) \<notin> set (drawn (ipixels demo_ticket))"
  using demo_run
  by (simp add: generate_ticket_drawn [OF demo_run] layout_def detail_text_def
      rounded_rectangle_shapes_def badge_coords_def Let_def
      demo_config demo_fonts default_config_def demo_data_def owner_label_def)







text \<open>
  C7. The claim takes every radius with \<open>2r \<le> min(width, height)\<close>; that includes \<open>r = 0\<close>,
  where the first rectangle is the whole rectangle and the corner points are filled. For a
  radius of at least one pixel, with \<open>2r\<close> at most the width and the height of the rectangle:
  every pixel of the rectangle outside the four corner squares is filled; the four corner
  points are not; the fills are two rectangles and four pie slices of 90 degrees each; and
  what they cover together is exactly the rounded rectangle, the pixels within distance \<open>r\<close>
  of the rectangle inset by \<open>r\<close>. The six fills are what \<open>create_rounded_rectangle\<close> draws.
\<close>

theorem create_rounded_rectangle_fill:
  assumes "1 \<le> r" and "2 * r \<le> min (x2 - x1) (y2 - y1)"
  shows "(x1 \<le> x \<and> x \<le> x2 \<and> y1 \<le> y \<and> y \<le> y2 \<and> \<not> in_corner_square (x1, y1, x2, y2) r (x, y)
      \<longrightarrow> filled (rounded_rectangle_shapes (x1, y1, x2, y2) r) (x, y))
    \<and> \<not> filled (rounded_rectangle_shapes (x1, y1, x2, y2) r) (x1, y1)
    \<and> \<not> filled (rounded_rectangle_shapes (x1, y1, x2, y2) r) (x2, y1)
    \<and> \<not> filled (rounded_rectangle_shapes (x1, y1, x2, y2) r) (x1, y2)
    \<and> \<not> filled (rounded_rectangle_shapes (x1, y1, x2, y2) r) (x2, y2)
    \<and> map span (rounded_rectangle_shapes (x1, y1, x2, y2) r)
        = [None, None, Some 90, Some 90, Some 90, Some 90]
    \<and> (filled (rounded_rectangle_shapes (x1, y1, x2, y2) r) (x, y)
        \<longleftrightarrow> in_rounded_rectangle (x1, y1, x2, y2) r (x, y))
    \<and> (\<exists>im'. create_rounded_rectangle im (x1, y1, x2, y2) r c = Inr im'
        \<and> drawn (ipixels im') = drawn (ipixels im)
            @ map (\<lambda>s. Fill s c) (rounded_rectangle_shapes (x1, y1, x2, y2) r))"
proof -
  from assms have r: "0 < r" and w: "2 * r \<le> x2 - x1" and h: "2 * r \<le> y2 - y1"
    by simp_all
  have "succeeds (create_rounded_rectangle im (x1, y1, x2, y2) r c)"
    using r w h by (simp add: create_rounded_rectangle_succeeds)
  then obtain im' where im': "create_rounded_rectangle im (x1, y1, x2, y2) r c = Inr im'"
    unfolding succeeds_iff by blast
  have "map span (rounded_rectangle_shapes (x1, y1, x2, y2) r)
      = [None, None, Some 90, Some 90, Some 90, Some 90]"
    by (simp add: rounded_rectangle_shapes_def)
  with outside_corner_squares_filled [OF r, of x1 x x2 y1 y y2]
    corners_not_filled [OF r w h] filled_iff_rounded [OF r w h, of x y]
    im' create_rounded_rectangle_drawn [OF im']
  show ?thesis by simp
qed

theorem create_rounded_rectangle_fill_witness:
  "(1::int) \<le> 10 \<and> 2 * 10 \<le> min (164 - 95) (206 - (185::int))
   \<and> \<not> in_corner_square (95, 185, 164, 206) 10 (95, 195)
   \<and> filled (rounded_rectangle_shapes (95, 185, 164, 206) 10) (95, 195)
   \<and> \<not> filled (rounded_rectangle_shapes (95, 185, 164, 206) 10) (95, 185)
   \<and> \<not> filled (rounded_rectangle_shapes (95, 185, 164, 206) 10) (164, 185)
   \<and> \<not> filled (rounded_rectangle_shapes (95, 185, 164, 206) 10) (95, 206)
   \<and> \<not> filled (rounded_rectangle_shapes (95, 185, 164, 206) 10) (164, 206)
   \<and> in_rounded_rectangle (95, 185, 164, 206) 10 (95, 195)
   \<and> succeeds (create_rounded_rectangle demo_ticket (95, 185, 164, 206) 10 (RGB3 255 215 0))"
proof -
  have a: "(1::int) \<le> 10" and b: "2 * 10 \<le> min (164 - 95) (206 - (185::int))"
    by simp_all
  have c: "\<not> in_corner_square (95, 185, 164, 206) 10 (95, 195)"
    by (simp add: in_corner_square_def)
  from create_rounded_rectangle_fill [OF a b, of 95 195 demo_ticket "RGB3 255 215 0"] a b c
  show ?thesis by (auto simp: succeeds_iff)
qed

theorem create_rounded_rectangle_fill_counterexample:
  "2 * 0 \<le> min (10 - 0) (10 - (0::int))
   \<and> filled (rounded_rectangle_shapes (0, 0, 10, 10) 0) (0, 0)"
  by (simp add: filled_def rounded_rectangle_shapes_def)

text \<open>
  C2. The claim has \<open>process_background\<close> return an image of exactly the canvas size. The
  crop box is computed with float halves, \<open>left = (new_width - width) / 2\<close>, and
  \<^verbatim>\<open>Image.crop\<close> rounds each coordinate half to even. For a 3 by 3 canvas and a 4 by 2
  background the scaled image is 6 by 3, the box is \<open>(1.5, 0.0, 4.5, 3.0)\<close>, it rounds to
  \<open>(2, 0, 4, 3)\<close>, and the result is 2 pixels wide, not 3.
\<close>

theorem process_background_half_pixel_crop:
  "process_background wide_env square_config ''./wide.png'' =
     Inr \<lparr>imode = Mode_RGB, iwidth = 2, iheight = 3,
       ipixels = Cropped (Resized (File ''./wide.png'') 6 3 LANCZOS) 2 0 4 3\<rparr>
   \<and> (width square_config, height square_config) = (3, 3)"
  by code_simp



end
